theory Spec2Isabelle
  imports Complex_Main "HOL-Library.Log_Nat"
begin

section \<open>The file system as the sync engine sees it\<close>

text \<open>
  The scripts reach the file system through \<open>os.path.exists\<close>, \<open>stat\<close>
  (\<open>getsize\<close>, \<open>getmtime\<close>), \<open>open\<close>/\<open>read\<close>/\<open>write\<close> and
  \<open>shutil.copy2\<close>/\<open>copystat\<close>. A file is its bytes and its modification time;
  \<open>st_mtime\<close> is a Python float (a rational number of seconds), \<open>st_size\<close> is the
  number of bytes. Every call may raise: the \<open>world\<close> says, path by path, which
  calls fail, so that each \<open>try\<close>/\<open>except\<close> of the source is a branch of the model.
  A file written now gets the modification time \<open>clock\<close>. Directories are not
  modelled: \<open>mkdir(parents=True, exist_ok=True)\<close> is a no-op, and a failure to create
  the destination is part of \<open>write_fails\<close>.
\<close>

type_synonym path = string
type_synonym bytes = string

datatype py_error =
  FileNotFoundError | PermissionError | OSError | SameFileError | ZeroDivisionError | ApiRequestError

record fnode =
  data :: bytes
  mtime :: rat

record world =
  files :: "path \<Rightarrow> fnode option"
  stat_fails :: "path \<Rightarrow> bool"
  read_fails :: "path \<Rightarrow> bool"
  write_fails :: "path \<Rightarrow> bool"
  copystat_fails :: "path \<Rightarrow> bool"
  clock :: rat

definition path_exists :: "world \<Rightarrow> path \<Rightarrow> bool" where
  "path_exists w p = (files w p \<noteq> None)"

definition stat :: "world \<Rightarrow> path \<Rightarrow> py_error + fnode" where
  "stat w p =
     (case files w p of
        None \<Rightarrow> Inl FileNotFoundError
      | Some f \<Rightarrow> if stat_fails w p then Inl OSError else Inr f)"

definition st_size :: "fnode \<Rightarrow> nat" where
  "st_size f = length (data f)"

definition st_mtime :: "fnode \<Rightarrow> rat" where
  "st_mtime f = mtime f"

definition open_rb :: "world \<Rightarrow> path \<Rightarrow> py_error + bytes" where
  "open_rb w p =
     (case files w p of
        None \<Rightarrow> Inl FileNotFoundError
      | Some f \<Rightarrow> if read_fails w p then Inl PermissionError else Inr (data f))"

text \<open>Python's \<open>int(x)\<close> on a float truncates toward zero.\<close>

definition py_int :: "rat \<Rightarrow> int" where
  "py_int x = (if 0 \<le> x then \<lfloor>x\<rfloor> else \<lceil>x\<rceil>)"

section \<open>Streamed content digest\<close>

text \<open>
  \<open>iter(lambda: f.read(block_size), b"")\<close>: the blocks read from an open file until the
  first empty read.
\<close>

function read_chunks :: "nat \<Rightarrow> bytes \<Rightarrow> bytes list" where
  "read_chunks block_size d =
     (let chunk = take block_size d
      in if chunk = [] then [] else chunk # read_chunks block_size (drop block_size d))"
  by pat_completeness auto
termination
  by (relation "measure (\<lambda>(block_size, d). length d)") auto

declare read_chunks.simps [simp del]

text \<open>
  \<open>hashlib.md5\<close> is a library: the digest function \<open>md5\<close> is a parameter. An md5
  object fed with \<open>update\<close> digests the concatenation of what it was fed.
\<close>

definition md5_update_all :: "bytes list \<Rightarrow> bytes" where
  "md5_update_all chunks = foldl (\<lambda>fed chunk. fed @ chunk) [] chunks"

definition file_hash :: "(bytes \<Rightarrow> 'd) \<Rightarrow> world \<Rightarrow> path \<Rightarrow> py_error + 'd" where
  "file_hash md5 w p =
     (case open_rb w p of
        Inl e \<Rightarrow> Inl e
      | Inr d \<Rightarrow> Inr (md5 (md5_update_all (read_chunks 65536 d))))"

section \<open>Change detection\<close>

text \<open>\<open>needs_update\<close> of pytest.py: no handler, a failing call propagates.\<close>

definition needs_update :: "(bytes \<Rightarrow> 'd) \<Rightarrow> world \<Rightarrow> path \<Rightarrow> path \<Rightarrow> py_error + bool" where
  "needs_update md5 w src dst =
     (if \<not> path_exists w dst then Inr True
      else case stat w src of Inl e \<Rightarrow> Inl e | Inr s \<Rightarrow>
           case stat w dst of Inl e \<Rightarrow> Inl e | Inr d \<Rightarrow>
           if st_size s \<noteq> st_size d then Inr True
           else if py_int (st_mtime s) > py_int (st_mtime d) then Inr True
           else case file_hash md5 w src of Inl e \<Rightarrow> Inl e | Inr h_src \<Rightarrow>
                case file_hash md5 w dst of Inl e \<Rightarrow> Inl e | Inr h_dst \<Rightarrow>
                Inr (h_src \<noteq> h_dst))"

text \<open>
  The first \<open>try\<close> block of the two GUI variants: \<open>Inr True\<close> is its
  \<open>return True\<close>, \<open>Inr False\<close> is falling out of the block, \<open>Inl e\<close> is an
  exception reaching the handler.
\<close>

definition stat_checks :: "world \<Rightarrow> path \<Rightarrow> path \<Rightarrow> py_error + bool" where
  "stat_checks w src dst =
     (case stat w src of Inl e \<Rightarrow> Inl e | Inr s \<Rightarrow>
      case stat w dst of Inl e \<Rightarrow> Inl e | Inr d \<Rightarrow>
      if st_size s \<noteq> st_size d then Inr True
      else if py_int (st_mtime s) > py_int (st_mtime d) then Inr True
      else Inr False)"

text \<open>The second \<open>try\<close> block: a failing hash returns \<open>True\<close>.\<close>

definition hash_check :: "(bytes \<Rightarrow> 'd) \<Rightarrow> world \<Rightarrow> path \<Rightarrow> path \<Rightarrow> bool" where
  "hash_check md5 w src dst =
     (case file_hash md5 w src of Inl e \<Rightarrow> True | Inr h_src \<Rightarrow>
      case file_hash md5 w dst of Inl e \<Rightarrow> True | Inr h_dst \<Rightarrow> h_src \<noteq> h_dst)"

text \<open>\<open>transfer.needs_update\<close> of uipytest.py: the stat handler is \<open>pass\<close>.\<close>

definition transfer_needs_update :: "(bytes \<Rightarrow> 'd) \<Rightarrow> world \<Rightarrow> path \<Rightarrow> path \<Rightarrow> bool" where
  "transfer_needs_update md5 w src dst =
     (if \<not> path_exists w dst then True
      else case stat_checks w src dst of
             Inr True \<Rightarrow> True
           | Inr False \<Rightarrow> hash_check md5 w src dst
           | Inl e \<Rightarrow> hash_check md5 w src dst)"

text \<open>\<open>LocalTransfer.needs_update\<close> of uigdrive.py: the stat handler returns \<open>True\<close>.\<close>

definition LocalTransfer_needs_update :: "(bytes \<Rightarrow> 'd) \<Rightarrow> world \<Rightarrow> path \<Rightarrow> path \<Rightarrow> bool" where
  "LocalTransfer_needs_update md5 w src dst =
     (if \<not> path_exists w dst then True
      else case stat_checks w src dst of
             Inr True \<Rightarrow> True
           | Inr False \<Rightarrow> hash_check md5 w src dst
           | Inl e \<Rightarrow> True)"

section \<open>Writing files\<close>

text \<open>\<open>open(dst, "wb")\<close> creates or truncates the file.\<close>

definition open_wb :: "world \<Rightarrow> path \<Rightarrow> py_error + world" where
  "open_wb w p =
     (if write_fails w p then Inl PermissionError
      else Inr (w\<lparr>files := (files w)(p \<mapsto> \<lparr>data = [], mtime = clock w\<rparr>)\<rparr>))"

text \<open>\<open>fdst.write(chunk)\<close> appends to the open file.\<close>

definition write_chunk :: "world \<Rightarrow> path \<Rightarrow> bytes \<Rightarrow> world" where
  "write_chunk w p chunk =
     (let old = (case files w p of None \<Rightarrow> [] | Some f \<Rightarrow> data f)
      in w\<lparr>files := (files w)(p \<mapsto> \<lparr>data = old @ chunk, mtime = clock w\<rparr>)\<rparr>)"

text \<open>\<open>shutil.copystat\<close>: the destination takes the source's modification time.\<close>

definition copystat :: "world \<Rightarrow> path \<Rightarrow> path \<Rightarrow> py_error + world" where
  "copystat w src dst =
     (case stat w src of
        Inl e \<Rightarrow> Inl e
      | Inr s \<Rightarrow>
          (case files w dst of
             None \<Rightarrow> Inl FileNotFoundError
           | Some d \<Rightarrow>
               if copystat_fails w dst then Inl OSError
               else Inr (w\<lparr>files := (files w)(dst \<mapsto> d\<lparr>mtime := st_mtime s\<rparr>)\<rparr>)))"

text \<open>
  \<open>shutil.copy2\<close> is \<open>copyfile\<close> followed by \<open>copystat\<close>. It returns the world
  it leaves behind together with the exception it raised, if any: a failing
  \<open>copystat\<close> leaves the copied bytes in place.
\<close>

definition copyfile :: "world \<Rightarrow> path \<Rightarrow> path \<Rightarrow> py_error + world" where
  "copyfile w src dst =
     (if src = dst then Inl SameFileError
      else case open_rb w src of
             Inl e \<Rightarrow> Inl e
           | Inr d \<Rightarrow>
               (case open_wb w dst of
                  Inl e \<Rightarrow> Inl e
                | Inr w1 \<Rightarrow> Inr (write_chunk w1 dst d)))"

definition copy2 :: "world \<Rightarrow> path \<Rightarrow> path \<Rightarrow> py_error option \<times> world" where
  "copy2 w src dst =
     (case copyfile w src dst of
        Inl e \<Rightarrow> (Some e, w)
      | Inr w1 \<Rightarrow>
          (case copystat w1 src dst of
             Inl e \<Rightarrow> (Some e, w1)
           | Inr w2 \<Rightarrow> (None, w2)))"

section \<open>The progress percentage\<close>

text \<open>
  \<open>int(current_size[0] / totalsize * 100)\<close>: the quotient of two ints is the
  correctly rounded double, the product with 100 is rounded again, and \<open>int\<close>
  truncates. \<open>round_double\<close> rounds a rational to the nearest double, ties to even
  (53-bit significand; the exponent range is not modelled: byte counts are far from it).
  A zero divisor raises \<open>ZeroDivisionError\<close>.
\<close>

definition round_half_even :: "rat \<Rightarrow> int" where
  "round_half_even x =
     (let f = \<lfloor>x\<rfloor>; r = x - of_int f
      in if r < 1 / 2 then f else if 1 / 2 < r then f + 1 else if even f then f else f + 1)"

definition binade :: "rat \<Rightarrow> int" where
  "binade x =
     (let (n, d) = quotient_of x; k = bitlen n - bitlen d
      in if 2 powi k \<le> x then k else k - 1)"

definition round_double :: "rat \<Rightarrow> rat" where
  "round_double x =
     (if x = 0 then 0
      else let ulp = 2 powi (binade \<bar>x\<bar> - 52)
           in sgn x * of_int (round_half_even (\<bar>x\<bar> / ulp)) * ulp)"

definition true_div :: "nat \<Rightarrow> nat \<Rightarrow> py_error + rat" where
  "true_div a b =
     (if b = 0 then Inl ZeroDivisionError else Inr (round_double (of_nat a / of_nat b)))"

definition pct :: "nat \<Rightarrow> nat \<Rightarrow> py_error + int" where
  "pct cur totalsize =
     (case true_div cur totalsize of
        Inl e \<Rightarrow> Inl e
      | Inr q \<Rightarrow> Inr (py_int (round_double (q * 100))))"

section \<open>Session state\<close>

text \<open>
  What the worker threads of one run share: the file system, the byte counter
  \<open>current_size[0]\<close>, the \<open>progress_queue\<close> (oldest event first) and the
  \<open>stop_event\<close>. The event is set by the GUI thread at a moment the workers do not
  choose: \<open>cancel_at = Some k\<close> says that the first \<open>k\<close> calls of \<open>is_set()\<close>
  return \<open>False\<close> and all later ones \<open>True\<close>; \<open>None\<close> is a run that is never
  cancelled. \<open>polls\<close> counts the calls made so far.
\<close>

datatype tag = Updated | Skipped | Error | Cancelled

type_synonym result = "tag \<times> string"

datatype event =
  Downloading int string
  | StatusEvent string
  | DoneEvent string
  | ErrorEvent string
  | CancelledEvent

record session =
  fs :: world
  current_size :: nat
  progress_queue :: "event list"
  polls :: nat
  cancel_at :: "nat option"

definition is_set :: "'a session_scheme \<Rightarrow> bool" where
  "is_set st = (case cancel_at st of None \<Rightarrow> False | Some k \<Rightarrow> k \<le> polls st)"

definition poll :: "'a session_scheme \<Rightarrow> 'a session_scheme" where
  "poll st = st\<lparr>polls := Suc (polls st)\<rparr>"

definition put :: "event \<Rightarrow> 'a session_scheme \<Rightarrow> 'a session_scheme" where
  "put ev st = st\<lparr>progress_queue := progress_queue st @ [ev]\<rparr>"

definition basename :: "path \<Rightarrow> string" where
  "basename p = rev (takeWhile (\<lambda>c. c \<noteq> CHR ''/'') (rev p))"

definition joinpath :: "path \<Rightarrow> path \<Rightarrow> path" where
  "joinpath a b = a @ ''/'' @ b"

fun err_str :: "py_error \<Rightarrow> string" where
  "err_str FileNotFoundError = ''No such file or directory''"
| "err_str PermissionError = ''Permission denied''"
| "err_str OSError = ''Input/output error''"
| "err_str SameFileError = ''are the same file''"
| "err_str ZeroDivisionError = ''division by zero''"
| "err_str ApiRequestError = ''ApiRequestError''"

section \<open>The copy engine\<close>

definition CHUNK_SIZE :: nat where
  "CHUNK_SIZE = 1024 * 1024"

definition LARGE_FILE_THRESHOLD :: nat where
  "LARGE_FILE_THRESHOLD = 10 * 1024 * 1024"

text \<open>
  The \<open>while True\<close> loop of \<open>copy_file_with_progress\<close>, the same in uipytest.py and
  uigdrive.py: poll the stop event, read a chunk from the open source (\<open>rest\<close> is
  what is still unread), stop at the empty chunk, write, and under the lock add the
  chunk's length to the counter, compute the percentage and queue the event. The loop
  ends by \<open>break\<close>, by the \<open>return\<close> on cancellation or by an exception.
\<close>

datatype loop_exit = LoopBreak | LoopCancelled | LoopRaised py_error

function copy_loop :: "path \<Rightarrow> path \<Rightarrow> nat \<Rightarrow> bytes \<Rightarrow> session \<Rightarrow> loop_exit \<times> session" where
  "copy_loop src dst totalsize rest st =
     (if is_set st then (LoopCancelled, poll st)
      else let st1 = poll st; chunk = take CHUNK_SIZE rest
           in if chunk = [] then (LoopBreak, st1)
              else let st2 = st1\<lparr>fs := write_chunk (fs st1) dst chunk\<rparr>;
                       st3 = st2\<lparr>current_size := current_size st2 + length chunk\<rparr>
                   in case pct (current_size st3) totalsize of
                        Inl e \<Rightarrow> (LoopRaised e, st3)
                      | Inr p \<Rightarrow>
                          copy_loop src dst totalsize (drop CHUNK_SIZE rest)
                            (put (Downloading p (basename src)) st3))"
  by pat_completeness auto
termination
  by (relation "measure (\<lambda>(src, dst, totalsize, rest, st). length rest)")
     (auto simp: CHUNK_SIZE_def)

declare copy_loop.simps [simp del]

text \<open>The best-effort \<open>copystat\<close> after a streamed copy: its failure is swallowed.\<close>

definition try_copystat :: "world \<Rightarrow> path \<Rightarrow> path \<Rightarrow> world" where
  "try_copystat w src dst = (case copystat w src dst of Inl e \<Rightarrow> w | Inr w1 \<Rightarrow> w1)"

text \<open>
  The streamed branch: open source then destination, run the loop, copy the metadata.
  An exception anywhere is the \<open>Error\<close> result of the enclosing handler.
\<close>

definition stream_copy :: "path \<Rightarrow> path \<Rightarrow> nat \<Rightarrow> session \<Rightarrow> result \<times> session" where
  "stream_copy src dst totalsize st =
     (case open_rb (fs st) src of
        Inl e \<Rightarrow> ((Error, ''Error copying '' @ src @ '': '' @ err_str e), st)
      | Inr content \<Rightarrow>
          (case open_wb (fs st) dst of
             Inl e \<Rightarrow> ((Error, ''Error copying '' @ src @ '': '' @ err_str e), st)
           | Inr w1 \<Rightarrow>
               (case copy_loop src dst totalsize content (st\<lparr>fs := w1\<rparr>) of
                  (LoopCancelled, st2) \<Rightarrow> ((Cancelled, ''Cancelled: '' @ src), st2)
                | (LoopRaised e, st2) \<Rightarrow>
                    ((Error, ''Error copying '' @ src @ '': '' @ err_str e), st2)
                | (LoopBreak, st2) \<Rightarrow>
                    ((Updated, ''Updated: '' @ src),
                     st2\<lparr>fs := try_copystat (fs st2) src dst\<rparr>))))"

text \<open>\<open>transfer.copy_file_with_progress\<close> of uipytest.py: every file is streamed.\<close>

definition transfer_copy_file_with_progress ::
  "path \<Rightarrow> path \<Rightarrow> nat \<Rightarrow> session \<Rightarrow> result \<times> session" where
  "transfer_copy_file_with_progress src_file dst_file totalsize st =
     (if is_set st then ((Cancelled, ''Cancelled: '' @ src_file), poll st)
      else let st1 = poll st
           in case stat (fs st1) src_file of
                Inl e \<Rightarrow> ((Error, ''Error copying '' @ src_file @ '': '' @ err_str e), st1)
              | Inr s \<Rightarrow> stream_copy src_file dst_file totalsize st1)"

text \<open>
  \<open>LocalTransfer.copy_file_with_progress\<close> of uigdrive.py: files of at least
  \<open>LARGE_FILE_THRESHOLD\<close> bytes are streamed, smaller ones go through one
  \<open>shutil.copy2\<close> followed by one counter update and one event.
\<close>

definition LocalTransfer_copy_file_with_progress ::
  "path \<Rightarrow> path \<Rightarrow> nat \<Rightarrow> session \<Rightarrow> result \<times> session" where
  "LocalTransfer_copy_file_with_progress src_file dst_file totalsize st =
     (if is_set st then ((Cancelled, ''Cancelled: '' @ src_file), poll st)
      else let st1 = poll st
           in case stat (fs st1) src_file of
                Inl e \<Rightarrow> ((Error, ''Error copying '' @ src_file @ '': '' @ err_str e), st1)
              | Inr s \<Rightarrow>
                  let file_size = st_size s
                  in if file_size \<ge> LARGE_FILE_THRESHOLD
                     then stream_copy src_file dst_file totalsize st1
                     else (case copy2 (fs st1) src_file dst_file of
                             (Some e, w1) \<Rightarrow>
                               ((Error, ''Error copying '' @ src_file @ '': '' @ err_str e),
                                st1\<lparr>fs := w1\<rparr>)
                           | (None, w1) \<Rightarrow>
                               let st2 = st1\<lparr>fs := w1\<rparr>;
                                   st3 = st2\<lparr>current_size := current_size st2 + file_size\<rparr>
                               in (case pct (current_size st3) totalsize of
                                     Inl e \<Rightarrow>
                                       ((Error,
                                         ''Error copying '' @ src_file @ '': '' @ err_str e),
                                        st3)
                                   | Inr p \<Rightarrow>
                                       ((Updated, ''Updated: '' @ src_file),
                                        put (Downloading p (basename src_file)) st3))))"

section \<open>One task\<close>

text \<open>
  The percentage of the skipped branch:
  \<open>int(current_size[0] / totalsize * 100) if totalsize else 100\<close>.
\<close>

definition skip_pct :: "nat \<Rightarrow> nat \<Rightarrow> py_error + int" where
  "skip_pct cur totalsize = (if totalsize \<noteq> 0 then pct cur totalsize else Inr 100)"

definition transfer_process_file ::
  "(bytes \<Rightarrow> 'd) \<Rightarrow> path \<Rightarrow> path \<Rightarrow> nat \<Rightarrow> session \<Rightarrow> result \<times> session" where
  "transfer_process_file md5 src_file dst_file totalsize st =
     (if is_set st then ((Cancelled, ''Cancelled: '' @ src_file), poll st)
      else let st1 = poll st
           in if transfer_needs_update md5 (fs st1) src_file dst_file
              then transfer_copy_file_with_progress src_file dst_file totalsize st1
              else (case skip_pct (current_size st1) totalsize of
                      Inl e \<Rightarrow>
                        ((Error, ''Error processing '' @ src_file @ '': '' @ err_str e), st1)
                    | Inr p \<Rightarrow>
                        ((Skipped, ''Skipped: '' @ src_file),
                         put (Downloading p (basename src_file)) st1)))"

definition LocalTransfer_process_file ::
  "(bytes \<Rightarrow> 'd) \<Rightarrow> path \<Rightarrow> path \<Rightarrow> nat \<Rightarrow> session \<Rightarrow> result \<times> session" where
  "LocalTransfer_process_file md5 src_file dst_file totalsize st =
     (if is_set st then ((Cancelled, ''Cancelled: '' @ src_file), poll st)
      else let st1 = poll st
           in if LocalTransfer_needs_update md5 (fs st1) src_file dst_file
              then LocalTransfer_copy_file_with_progress src_file dst_file totalsize st1
              else (case skip_pct (current_size st1) totalsize of
                      Inl e \<Rightarrow>
                        ((Error, ''Error processing '' @ src_file @ '': '' @ err_str e), st1)
                    | Inr p \<Rightarrow>
                        ((Skipped, ''Skipped: '' @ src_file),
                         put (Downloading p (''(Skipped) '' @ basename src_file)) st1)))"

section \<open>The worker pool and the session\<close>

text \<open>
  \<open>sync_folder\<close>, \<open>sync_file\<close> and \<open>run\<close> read the same in \<open>transfer\<close>
  (uipytest.py) and \<open>LocalTransfer\<close> (uigdrive.py); they differ in
  \<open>self.process_file\<close>, which is the parameter \<open>process_file\<close> here.

  The pool is modelled by the schedule in which the submitted tasks run one at a
  time in submission order and the main thread takes each result as soon as it is
  there. After the \<open>break\<close>, leaving the \<open>with\<close> block waits for the tasks still
  queued (\<open>shutdown\<close>): they run, and their results are dropped. \<open>process_file\<close>
  catches every exception, so \<open>fut.result()\<close> never raises and the
  \<open>"Worker exception"\<close> branch is dead.
\<close>

type_synonym task = "path \<times> path"

type_synonym worker = "path \<Rightarrow> path \<Rightarrow> nat \<Rightarrow> session \<Rightarrow> result \<times> session"

fun shutdown :: "worker \<Rightarrow> nat \<Rightarrow> task list \<Rightarrow> session \<Rightarrow> session" where
  "shutdown process_file totalsize [] st = st"
| "shutdown process_file totalsize ((s, d) # futures) st =
     shutdown process_file totalsize futures (snd (process_file s d totalsize st))"

fun collect_futures :: "worker \<Rightarrow> nat \<Rightarrow> task list \<Rightarrow> session \<Rightarrow> result list \<times> session" where
  "collect_futures process_file totalsize [] st = ([], st)"
| "collect_futures process_file totalsize ((s, d) # futures) st =
     (let (res, st1) = process_file s d totalsize st
      in if is_set st1 then ([res], shutdown process_file totalsize futures (poll st1))
         else let (results, st2) = collect_futures process_file totalsize futures (poll st1)
              in (res # results, st2))"

text \<open>
  The enumeration loop of \<open>sync_folder\<close>: \<open>walk\<close> is what \<open>os.walk\<close> finds, the
  files below the source as paths relative to it. A failing \<open>stat\<close> adds nothing to
  \<open>totalsize\<close>.
\<close>

definition enumerate_tasks :: "path \<Rightarrow> path \<Rightarrow> path list \<Rightarrow> task list" where
  "enumerate_tasks src dst walk =
     (let dst_root = joinpath dst (basename src)
      in map (\<lambda>rel. (joinpath src rel, joinpath dst_root rel)) walk)"

fun sum_sizes :: "world \<Rightarrow> task list \<Rightarrow> nat" where
  "sum_sizes w [] = 0"
| "sum_sizes w ((s, d) # tasks) =
     (case stat w s of Inl e \<Rightarrow> 0 | Inr f \<Rightarrow> st_size f) + sum_sizes w tasks"

definition folder_totalsize :: "world \<Rightarrow> task list \<Rightarrow> nat" where
  "folder_totalsize w tasks =
     (let totalsize = sum_sizes w tasks
      in if totalsize = 0 \<and> tasks \<noteq> [] then 1 else totalsize)"

definition sync_folder ::
  "worker \<Rightarrow> path \<Rightarrow> path \<Rightarrow> path list \<Rightarrow> session \<Rightarrow> result list \<times> session" where
  "sync_folder process_file src dst walk st =
     (let tasks = enumerate_tasks src dst walk;
          totalsize = folder_totalsize (fs st) tasks
      in collect_futures process_file totalsize tasks (st\<lparr>current_size := 0\<rparr>))"

definition file_totalsize :: "world \<Rightarrow> path \<Rightarrow> nat" where
  "file_totalsize w src = (case stat w src of Inl e \<Rightarrow> 1 | Inr f \<Rightarrow> st_size f)"

definition sync_file ::
  "worker \<Rightarrow> path \<Rightarrow> path \<Rightarrow> session \<Rightarrow> result list \<times> session" where
  "sync_file process_file src dst st =
     (let dst_file = joinpath dst (basename src);
          totalsize = file_totalsize (fs st) src;
          (res, st1) = process_file src dst_file totalsize (st\<lparr>current_size := 0\<rparr>)
      in ([res], st1))"

text \<open>
  What \<open>self.src\<close> is when \<open>run\<close> looks at it: missing, a regular file, a
  directory (with what \<open>os.walk\<close> finds below it), or something else.
\<close>

datatype source = Missing | RegularFile | Directory "path list" | Special

text \<open>The last \<open>if\<close> of \<open>run\<close>: the terminal event of a sync that returned.\<close>

definition finish :: "result list \<Rightarrow> session \<Rightarrow> session" where
  "finish results st =
     (if is_set st then put CancelledEvent (poll st)
      else if list_ex (\<lambda>r. fst r = Error) results
           then put (ErrorEvent ''Some files failed; check console'') (poll st)
           else put (DoneEvent []) (poll st))"

definition run :: "worker \<Rightarrow> source \<Rightarrow> path \<Rightarrow> path \<Rightarrow> session \<Rightarrow> session" where
  "run process_file kind src dst st =
     (case kind of
        Missing \<Rightarrow> put (ErrorEvent (''Source does not exist: '' @ src)) st
      | RegularFile \<Rightarrow>
          (let (results, st1) = sync_file process_file src dst st in finish results st1)
      | Directory walk \<Rightarrow>
          (let (results, st1) = sync_folder process_file src dst walk st
           in finish results st1)
      | Special \<Rightarrow> put (ErrorEvent (''Invalid source path: '' @ src)) st)"

definition transfer_run ::
  "(bytes \<Rightarrow> 'd) \<Rightarrow> source \<Rightarrow> path \<Rightarrow> path \<Rightarrow> session \<Rightarrow> session" where
  "transfer_run md5 = run (transfer_process_file md5)"

definition LocalTransfer_run ::
  "(bytes \<Rightarrow> 'd) \<Rightarrow> source \<Rightarrow> path \<Rightarrow> path \<Rightarrow> session \<Rightarrow> session" where
  "LocalTransfer_run md5 = run (LocalTransfer_process_file md5)"

text \<open>A run starts with an empty queue, a zero counter and a cleared stop event.\<close>

definition start :: "world \<Rightarrow> nat option \<Rightarrow> session" where
  "start w c = \<lparr>fs = w, current_size = 0, progress_queue = [], polls = 0, cancel_at = c\<rparr>"

section \<open>The Google Drive upload\<close>

text \<open>
  The Drive folder the run uploads into, as the PyDrive2 calls of the source see it:
  \<open>children\<close> is what \<open>ListFile\<close> returns for the folder, Google-native documents
  having no \<open>md5Checksum\<close>. A file made by \<open>CreateFile\<close> from a title and a parent
  only, without an \<open>id\<close>, is a new object: its \<open>Upload()\<close> inserts it with an id
  of its own, whatever titles the folder holds already. \<open>upload_fails\<close> and
  \<open>list_fails\<close> say which API calls raise.
\<close>

record 'd gfile =
  gid :: nat
  title :: string
  fileSize :: nat
  md5Checksum :: "'d option"

record 'd gdrive =
  folder_found :: bool
  children :: "'d gfile list"
  next_id :: nat
  upload_fails :: "string \<Rightarrow> bool"
  list_fails :: bool

record 'd gsession = session +
  drive :: "'d gdrive"
  uploaded_count :: nat
  skipped_count :: nat

definition Upload :: "(bytes \<Rightarrow> 'd) \<Rightarrow> 'd gdrive \<Rightarrow> string \<Rightarrow> bytes \<Rightarrow> py_error + 'd gdrive" where
  "Upload md5 drv file_name content =
     (if upload_fails drv file_name then Inl ApiRequestError
      else Inr (drv\<lparr>children := children drv @
                       [\<lparr>gid = next_id drv, title = file_name,
                         fileSize = length content, md5Checksum = Some (md5 content)\<rparr>],
                    next_id := Suc (next_id drv)\<rparr>))"

text \<open>
  The dictionary \<open>remote_files\<close>: title to (id, size, md5) for the listed files that
  have a checksum; a later file of the same title replaces an earlier one.
\<close>

fun remote_files_of ::
  "'d gfile list \<Rightarrow> (string \<Rightarrow> (nat \<times> nat \<times> 'd) option) \<Rightarrow> (string \<Rightarrow> (nat \<times> nat \<times> 'd) option)" where
  "remote_files_of [] remote_files = remote_files"
| "remote_files_of (f # file_list) remote_files =
     remote_files_of file_list
       (case md5Checksum f of
          None \<Rightarrow> remote_files
        | Some m \<Rightarrow> remote_files(title f \<mapsto> (gid f, fileSize f, m)))"

text \<open>\<open>get_file_hash\<close> of uigdrive.py is \<open>file_hash\<close> under another name.\<close>

definition get_file_hash :: "(bytes \<Rightarrow> 'd) \<Rightarrow> world \<Rightarrow> path \<Rightarrow> py_error + 'd" where
  "get_file_hash md5 w p = file_hash md5 w p"

definition failed_to_process :: "path \<Rightarrow> py_error \<Rightarrow> event" where
  "failed_to_process local_path e =
     ErrorEvent (''Failed to process '' @ basename local_path @ '': '' @ err_str e)"

definition check_and_upload_file ::
  "(bytes \<Rightarrow> 'd) \<Rightarrow> (string \<Rightarrow> (nat \<times> nat \<times> 'd) option) \<Rightarrow> nat \<Rightarrow> path \<Rightarrow>
   'd gsession \<Rightarrow> 'd gsession" where
  "check_and_upload_file md5 remote_files total_files local_path st =
     (if is_set st then poll st
      else let st1 = poll st; file_name = basename local_path
           in case stat (fs st1) local_path of
                Inl e \<Rightarrow> put (failed_to_process local_path e) st1
              | Inr s \<Rightarrow>
           (case get_file_hash md5 (fs st1) local_path of
                Inl e \<Rightarrow> put (failed_to_process local_path e) st1
              | Inr local_md5 \<Rightarrow>
           if (case remote_files file_name of
                 None \<Rightarrow> False
               | Some (i, remote_size, remote_md5) \<Rightarrow>
                   st_size s = remote_size \<and> local_md5 = remote_md5)
           then let st2 = st1\<lparr>skipped_count := skipped_count st1 + 1\<rparr>
                in (case pct (uploaded_count st2 + skipped_count st2) total_files of
                      Inl e \<Rightarrow> put (failed_to_process local_path e) st2
                    | Inr p \<Rightarrow> put (Downloading p (''(Skipped) '' @ file_name)) st2)
           else (case open_rb (fs st1) local_path of
                   Inl e \<Rightarrow> put (failed_to_process local_path e) st1
                 | Inr content \<Rightarrow>
                (case Upload md5 (drive st1) file_name content of
                   Inl e \<Rightarrow> put (failed_to_process local_path e) st1
                 | Inr drv \<Rightarrow>
                     let st2 = st1\<lparr>drive := drv, uploaded_count := uploaded_count st1 + 1\<rparr>
                     in (case pct (uploaded_count st2 + skipped_count st2) total_files of
                           Inl e \<Rightarrow> put (failed_to_process local_path e) st2
                         | Inr p \<Rightarrow> put (Downloading p file_name) st2)))))"

text \<open>The pool of the upload: every future is awaited, in the same schedule as above.\<close>

fun upload_all ::
  "(bytes \<Rightarrow> 'd) \<Rightarrow> (string \<Rightarrow> (nat \<times> nat \<times> 'd) option) \<Rightarrow> nat \<Rightarrow> path list \<Rightarrow>
   'd gsession \<Rightarrow> 'd gsession" where
  "upload_all md5 remote_files total_files [] st = st"
| "upload_all md5 remote_files total_files (local_path # futures) st =
     upload_all md5 remote_files total_files futures
       (check_and_upload_file md5 remote_files total_files local_path st)"

text \<open>
  \<open>GDriveTransfer.run\<close>. \<open>walk\<close> is \<open>None\<close> when the source is not a directory,
  otherwise the full paths \<open>os.walk\<close> finds. A folder that is not found is created
  and has no children. An exception of a Drive call outside the workers reaches the
  handler of \<open>run\<close>.
\<close>

definition GDriveTransfer_run ::
  "(bytes \<Rightarrow> 'd) \<Rightarrow> path \<Rightarrow> path list option \<Rightarrow> 'd gsession \<Rightarrow> 'd gsession" where
  "GDriveTransfer_run md5 src walk st =
     (case walk of
        None \<Rightarrow> put (ErrorEvent ''Source must be a folder for Google Drive upload.'') st
      | Some local_files_to_check \<Rightarrow>
          let st1 = put (StatusEvent ''Finding destination folder on Drive...'') st
          in if list_fails (drive st1)
             then put (ErrorEvent (''An error occurred: '' @ err_str ApiRequestError)) st1
             else if \<not> folder_found (drive st1) \<and> upload_fails (drive st1) (basename src)
             then put (ErrorEvent (''An error occurred: '' @ err_str ApiRequestError))
                    (put (StatusEvent (''Creating new folder: '' @ basename src)) st1)
             else let st2 =
                        (if folder_found (drive st1)
                         then put (StatusEvent (''Found existing folder: '' @ basename src)) st1
                         else (put (StatusEvent (''Creating new folder: '' @ basename src)) st1)
                                \<lparr>drive := (drive st1)\<lparr>folder_found := True, children := []\<rparr>\<rparr>);
                      st3 = put (StatusEvent ''Checking for existing files...'') st2;
                      remote_files = remote_files_of (children (drive st3)) Map.empty;
                      total_files = length local_files_to_check
                  in if total_files = 0 then put (DoneEvent ''No files to upload.'') st3
                     else let st4 = upload_all md5 remote_files total_files
                                      local_files_to_check
                                      (st3\<lparr>uploaded_count := 0, skipped_count := 0\<rparr>)
                          in if is_set st4 then put CancelledEvent (poll st4)
                             else put (DoneEvent ''Upload Complete!'') (poll st4))"

section \<open>What a streamed copy leaves behind\<close>

text \<open>
  Two functions used to state the effect of the chunk loop: the world after writing
  a list of chunks to \<open>dst\<close>, and the events queued for them when the counter stood
  at \<open>cur\<close> before the first.
\<close>

fun write_all :: "world \<Rightarrow> path \<Rightarrow> bytes list \<Rightarrow> world" where
  "write_all w dst [] = w"
| "write_all w dst (chunk # chunks) = write_all (write_chunk w dst chunk) dst chunks"

fun chunk_events :: "string \<Rightarrow> nat \<Rightarrow> nat \<Rightarrow> bytes list \<Rightarrow> event list" where
  "chunk_events nm totalsize cur [] = []"
| "chunk_events nm totalsize cur (chunk # chunks) =
     Downloading (case pct (cur + length chunk) totalsize of Inl e \<Rightarrow> 0 | Inr p \<Rightarrow> p) nm
       # chunk_events nm totalsize (cur + length chunk) chunks"

text \<open>
  The stop event seen from a state with \<open>p\<close> polls made: how many of the chunks
  \<open>cs\<close> are written before a poll of the loop sees it set, and whether one does
  (the loop polls once before each read, the read of the empty chunk included).
\<close>

definition written :: "nat option \<Rightarrow> nat \<Rightarrow> bytes list \<Rightarrow> nat" where
  "written c p cs = (case c of None \<Rightarrow> length cs | Some k \<Rightarrow> min (length cs) (k - p))"

definition stopped :: "nat option \<Rightarrow> nat \<Rightarrow> bytes list \<Rightarrow> bool" where
  "stopped c p cs = (case c of None \<Rightarrow> False | Some k \<Rightarrow> k - p \<le> length cs)"


text \<open>
  A step that touches the file system at \<open>dst\<close> only: every other file and all
  the failure flags are as before.
\<close>

definition only_changes :: "path \<Rightarrow> world \<Rightarrow> world \<Rightarrow> bool" where
  "only_changes dst w w1 =
     (stat_fails w1 = stat_fails w \<and> read_fails w1 = read_fails w
      \<and> write_fails w1 = write_fails w \<and> copystat_fails w1 = copystat_fails w
      \<and> clock w1 = clock w \<and> (\<forall>p. p \<noteq> dst \<longrightarrow> files w1 p = files w p))"

text \<open>
  The last percentage in the queue is the one of the present counter; before the first
  event the counter is zero.
\<close>

definition queue_current :: "nat \<Rightarrow> session \<Rightarrow> bool" where
  "queue_current totalsize st =
     (progress_queue st = [] \<and> current_size st = 0
      \<or> (\<exists>p nm. last (progress_queue st) = Downloading p nm
                 \<and> pct (current_size st) totalsize = Inr p))"

text \<open>
  The size \<open>stat\<close> reports for a source (nothing when it fails), and the bytes of the
  sources whose task came back \<open>Updated\<close>.
\<close>

definition source_size :: "world \<Rightarrow> path \<Rightarrow> nat" where
  "source_size w s = (case stat w s of Inl e \<Rightarrow> 0 | Inr f \<Rightarrow> st_size f)"

fun updated_bytes :: "world \<Rightarrow> task list \<Rightarrow> result list \<Rightarrow> nat" where
  "updated_bytes w ((s, d) # tasks) (r # results) =
     (if fst r = Updated then source_size w s else 0) + updated_bytes w tasks results"
| "updated_bytes w tasks results = 0"

text \<open>
  What every task does to the shared state when the total is not zero: it leaves the
  stop event alone, writes to its own destination only, adds the size of its source
  to the counter exactly when it returns \<open>Updated\<close> in an uncancelled run, and keeps
  the last queued percentage in step with the counter.
\<close>

definition task_effect :: "worker \<Rightarrow> bool" where
  "task_effect process_file =
     (\<forall>src dst totalsize st. 0 < totalsize \<longrightarrow>
        (case process_file src dst totalsize st of
           (r, st') \<Rightarrow>
             cancel_at st' = cancel_at st
             \<and> only_changes dst (fs st) (fs st')
             \<and> (cancel_at st = None \<longrightarrow>
                  current_size st' =
                    current_size st + (if fst r = Updated then source_size (fs st) src else 0))
             \<and> (queue_current totalsize st \<longrightarrow> queue_current totalsize st')))"

section \<open>Example worlds\<close>

text \<open>
  A world built from (path, bytes, modification time) entries in which no call
  fails, at clock 1000.
\<close>

definition world_of :: "(path \<times> bytes \<times> rat) list \<Rightarrow> world" where
  "world_of entries =
     \<lparr>files = map_of (map (\<lambda>(p, d, t). (p, \<lparr>data = d, mtime = t\<rparr>)) entries),
      stat_fails = (\<lambda>p. False), read_fails = (\<lambda>p. False), write_fails = (\<lambda>p. False),
      copystat_fails = (\<lambda>p. False), clock = 1000\<rparr>"

text \<open>The start of an upload run.\<close>

definition gstart :: "world \<Rightarrow> nat option \<Rightarrow> 'd gdrive \<Rightarrow> 'd gsession" where
  "gstart w c drv =
     \<lparr>fs = w, current_size = 0, progress_queue = [], polls = 0, cancel_at = c,
      drive = drv, uploaded_count = 0, skipped_count = 0\<rparr>"

section \<open>Lemmas on the file system and the digest\<close>

lemma concat_read_chunks: "0 < n \<Longrightarrow> concat (read_chunks n d) = d"
proof (induction n d rule: read_chunks.induct)
  case (1 n d)
  show ?case
  proof (cases "take n d = []")
    case True
    with "1.prems" have "d = []" by (cases d) auto
    then show ?thesis by (subst read_chunks.simps) simp
  next
    case False
    with "1" have "concat (read_chunks n (drop n d)) = drop n d" by simp
    with False show ?thesis by (subst read_chunks.simps) (simp add: Let_def)
  qed
qed

lemma foldl_append_concat: "foldl (\<lambda>fed chunk. fed @ chunk) acc cs = acc @ concat cs"
  by (induction cs arbitrary: acc) simp_all

lemma md5_update_all_read_chunks: "0 < n \<Longrightarrow> md5_update_all (read_chunks n d) = d"
  by (simp add: md5_update_all_def foldl_append_concat concat_read_chunks)

lemma file_hash_eq:
  "files w p = Some f \<Longrightarrow> \<not> read_fails w p \<Longrightarrow> file_hash md5 w p = Inr (md5 (data f))"
  by (simp add: file_hash_def open_rb_def md5_update_all_read_chunks)


lemma stat_some: "files w p = Some f \<Longrightarrow> \<not> stat_fails w p \<Longrightarrow> stat w p = Inr f"
  by (simp add: stat_def)

lemma stat_InrD: "stat w p = Inr f \<Longrightarrow> files w p = Some f"
  by (auto simp: stat_def split: option.splits if_splits)

lemma file_hash_stat:
  "stat w p = Inr f \<Longrightarrow> \<not> read_fails w p \<Longrightarrow> file_hash digest w p = Inr (digest (data f))"
  by (simp add: file_hash_eq stat_InrD)

lemma py_int_numeral [simp]: "py_int (numeral n) = numeral n" "py_int 1 = 1" "py_int 0 = 0"
  by (simp_all add: py_int_def)


section \<open>Lemmas on the chunk loop\<close>

lemma poll_fields [simp]:
  "fs (poll st) = fs st" "current_size (poll st) = current_size st"
  "progress_queue (poll st) = progress_queue st" "cancel_at (poll st) = cancel_at st"
  "polls (poll st) = Suc (polls st)"
  by (simp_all add: poll_def)

lemma put_fields [simp]:
  "fs (put ev st) = fs st" "current_size (put ev st) = current_size st"
  "progress_queue (put ev st) = progress_queue st @ [ev]" "cancel_at (put ev st) = cancel_at st"
  "polls (put ev st) = polls st"
  by (simp_all add: put_def)

lemma pct_total_pos: "0 < t \<Longrightarrow> \<exists>p. pct c t = Inr p"
  by (simp add: pct_def true_div_def)

lemma read_chunks_Nil: "take n d = [] \<Longrightarrow> read_chunks n d = []"
  by (subst read_chunks.simps) simp

lemma read_chunks_Cons:
  "take n d \<noteq> [] \<Longrightarrow> read_chunks n d = take n d # read_chunks n (drop n d)"
  by (subst read_chunks.simps) (simp add: Let_def)

lemma written_set: "is_set st \<Longrightarrow> written (cancel_at st) (polls st) cs = 0"
  by (auto simp: is_set_def written_def split: option.splits)

lemma stopped_set: "is_set st \<Longrightarrow> stopped (cancel_at st) (polls st) cs"
  by (auto simp: is_set_def stopped_def split: option.splits)

lemma stopped_Nil: "\<not> is_set st \<Longrightarrow> \<not> stopped (cancel_at st) (polls st) []"
  by (auto simp: is_set_def stopped_def split: option.splits)

lemma written_Nil [simp]: "written c p [] = 0"
  by (simp add: written_def split: option.splits)

lemma written_Cons:
  "\<not> is_set st \<Longrightarrow>
   written (cancel_at st) (polls st) (x # cs) = Suc (written (cancel_at st) (Suc (polls st)) cs)"
  by (auto simp: is_set_def written_def split: option.splits)

lemma stopped_Cons:
  "\<not> is_set st \<Longrightarrow>
   stopped (cancel_at st) (polls st) (x # cs) = stopped (cancel_at st) (Suc (polls st)) cs"
  by (auto simp: is_set_def stopped_def split: option.splits)

lemma copy_loop_effect:
  "0 < totalsize \<Longrightarrow>
   copy_loop src dst totalsize rest st =
     (let cs = read_chunks CHUNK_SIZE rest;
          m = written (cancel_at st) (polls st) cs
      in (if stopped (cancel_at st) (polls st) cs then LoopCancelled else LoopBreak,
          st\<lparr>fs := write_all (fs st) dst (take m cs),
             current_size := current_size st + length (concat (take m cs)),
             progress_queue := progress_queue st @
                chunk_events (basename src) totalsize (current_size st) (take m cs),
             polls := polls st + m + 1\<rparr>))"
proof (induction src dst totalsize rest st rule: copy_loop.induct)
  case (1 src dst totalsize rest st)
  show ?case
  proof (cases "is_set st")
    case True
    then show ?thesis
      by (subst copy_loop.simps) (simp add: written_set stopped_set poll_def)
  next
    case notset: False
    show ?thesis
    proof (cases "take CHUNK_SIZE rest = []")
      case True
      with notset show ?thesis
        by (subst copy_loop.simps) (simp add: read_chunks_Nil stopped_Nil poll_def)
    next
      case False
      define chunk where "chunk = take CHUNK_SIZE rest"
      obtain p where p: "pct (current_size st + length chunk) totalsize = Inr p"
        using pct_total_pos [OF "1.prems"] by blast
      define st3 where "st3 = put (Downloading p (basename src))
                    (poll st\<lparr>fs := write_chunk (fs (poll st)) dst chunk,
                       current_size := current_size (poll st) + length chunk\<rparr>)"
      have IH: "copy_loop src dst totalsize (drop CHUNK_SIZE rest) st3 =
               (let cs = read_chunks CHUNK_SIZE (drop CHUNK_SIZE rest);
                    m = written (cancel_at st3) (polls st3) cs
                in (if stopped (cancel_at st3) (polls st3) cs then LoopCancelled else LoopBreak,
                    st3\<lparr>fs := write_all (fs st3) dst (take m cs),
                       current_size := current_size st3 + length (concat (take m cs)),
                       progress_queue := progress_queue st3 @
                          chunk_events (basename src) totalsize (current_size st3) (take m cs),
                       polls := polls st3 + m + 1\<rparr>))"
        unfolding st3_def chunk_def
        using "1.IH" [OF notset refl refl False refl refl _ "1.prems"] p [unfolded chunk_def]
        by (simp add: Let_def del: length_take)
      have step: "copy_loop src dst totalsize rest st =
                  copy_loop src dst totalsize (drop CHUNK_SIZE rest) st3"
        using notset False p
        by (subst copy_loop.simps) (simp add: Let_def st3_def chunk_def del: length_take)
      have f: "fs st3 = write_chunk (fs st) dst chunk" "current_size st3 = current_size st + length chunk"
        "progress_queue st3 = progress_queue st @ [Downloading p (basename src)]"
        "cancel_at st3 = cancel_at st" "polls st3 = Suc (polls st)"
        by (simp_all add: st3_def)
      have upd: "st3\<lparr>fs := a, current_size := b, progress_queue := c, polls := d\<rparr> =
                 st\<lparr>fs := a, current_size := b, progress_queue := c, polls := d\<rparr>" for a b c d
        by (simp add: st3_def put_def poll_def)
      show ?thesis
        unfolding step IH
        using False p
        by (simp add: Let_def read_chunks_Cons written_Cons [OF notset] stopped_Cons [OF notset]
            f upd chunk_def [symmetric] del: length_take)
    qed
  qed
qed


lemma any_error: "list_ex (\<lambda>r. fst r = Error) results = (Error \<in> fst ` set results)"
  by (force simp: list_ex_iff)

section \<open>Lemmas on writes\<close>

lemma only_changes_refl [simp]: "only_changes dst w w"
  by (simp add: only_changes_def)

lemma only_changes_trans:
  "only_changes dst w w1 \<Longrightarrow> only_changes dst w1 w2 \<Longrightarrow> only_changes dst w w2"
  by (simp add: only_changes_def)

lemma only_changes_stat:
  "only_changes dst w w1 \<Longrightarrow> p \<noteq> dst \<Longrightarrow> stat w1 p = stat w p"
  by (auto simp: only_changes_def stat_def split: option.splits)

lemma only_changes_open_rb:
  "only_changes dst w w1 \<Longrightarrow> p \<noteq> dst \<Longrightarrow> open_rb w1 p = open_rb w p"
  by (auto simp: only_changes_def open_rb_def split: option.splits)

lemma write_chunk_changes: "only_changes dst w (write_chunk w dst c)"
  by (simp add: only_changes_def write_chunk_def)

lemma write_all_changes: "only_changes dst w (write_all w dst cs)"
proof (induction cs arbitrary: w)
  case Nil
  show ?case by simp
next
  case (Cons c cs)
  show ?case
    using only_changes_trans [OF write_chunk_changes Cons.IH] by simp
qed

lemma write_all_data:
  "files w dst = Some f \<Longrightarrow> mtime f = clock w \<Longrightarrow>
   files (write_all w dst cs) dst = Some \<lparr>data = data f @ concat cs, mtime = clock w\<rparr>"
proof (induction cs arbitrary: w f)
  case Nil
  then show ?case by simp
next
  case (Cons c cs)
  have "files (write_chunk w dst c) dst = Some \<lparr>data = data f @ c, mtime = clock w\<rparr>"
    using Cons.prems by (simp add: write_chunk_def)
  moreover have "clock (write_chunk w dst c) = clock w"
    by (simp add: write_chunk_def)
  ultimately show ?case
    using Cons.IH [of "write_chunk w dst c" "\<lparr>data = data f @ c, mtime = clock w\<rparr>"]
    by simp
qed

lemma open_wb_changes: "open_wb w dst = Inr w1 \<Longrightarrow> only_changes dst w w1"
  by (auto simp: open_wb_def only_changes_def split: if_splits)

lemma open_wb_file:
  "open_wb w dst = Inr w1 \<Longrightarrow> files w1 dst = Some \<lparr>data = [], mtime = clock w\<rparr> \<and> clock w1 = clock w"
  by (auto simp: open_wb_def split: if_splits)

lemma open_wb_ok: "\<not> write_fails w dst \<Longrightarrow> \<exists>w1. open_wb w dst = Inr w1"
  by (simp add: open_wb_def)

lemma copystat_changes: "copystat w src dst = Inr w1 \<Longrightarrow> only_changes dst w w1"
  by (auto simp: copystat_def only_changes_def split: sum.splits option.splits if_splits)

lemma try_copystat_changes: "only_changes dst w (try_copystat w src dst)"
  by (auto simp: try_copystat_def copystat_changes split: sum.splits)

lemma try_copystat_data:
  "map_option data (files (try_copystat w src dst) dst) = map_option data (files w dst)"
  by (auto simp: try_copystat_def copystat_def split: sum.splits option.splits if_splits)

lemma copy2_changes: "copy2 w src dst = (e, w1) \<Longrightarrow> only_changes dst w w1"
  by (auto simp: copy2_def copyfile_def split: sum.splits if_splits)
    (blast intro: only_changes_trans open_wb_changes write_chunk_changes copystat_changes)+

lemma copy2_ok:
  assumes "stat w src = Inr s" and "\<not> read_fails w src" and "\<not> write_fails w dst"
    and "\<not> copystat_fails w dst" and "src \<noteq> dst"
  shows "\<exists>w1. copy2 w src dst = (None, w1)
            \<and> files w1 dst = Some \<lparr>data = data s, mtime = mtime s\<rparr>"
  using assms
  by (auto simp: copy2_def copyfile_def open_rb_def open_wb_def write_chunk_def copystat_def
      stat_def st_mtime_def split: option.splits if_splits)

lemma copy2_None:
  assumes "copy2 w src dst = (None, w1)"
  shows "\<exists>s. stat w src = Inr s \<and> files w1 dst = Some \<lparr>data = data s, mtime = mtime s\<rparr>
             \<and> \<not> read_fails w src \<and> src \<noteq> dst"
  using assms
  by (auto simp: copy2_def copyfile_def open_rb_def open_wb_def write_chunk_def copystat_def
      stat_def st_mtime_def split: option.splits if_splits sum.splits)

section \<open>Lemmas on the streamed copy\<close>

lemma stat_open_rb:
  "stat w p = Inr f \<Longrightarrow> \<not> read_fails w p \<Longrightarrow> open_rb w p = Inr (data f)"
  by (auto simp: stat_def open_rb_def split: option.splits if_splits)

lemma chunk_events_length [simp]: "length (chunk_events nm t cur cs) = length cs"
  by (induction cs arbitrary: cur) simp_all

lemma chunk_events_Nil_iff [simp]: "chunk_events nm t cur cs = [] \<longleftrightarrow> cs = []"
  by (cases cs) simp_all

lemma chunk_events_last:
  "cs \<noteq> [] \<Longrightarrow> 0 < t \<Longrightarrow>
   \<exists>p. last (chunk_events nm t cur cs) = Downloading p nm
       \<and> pct (cur + length (concat cs)) t = Inr p"
proof (induction cs arbitrary: cur)
  case Nil
  then show ?case by simp
next
  case (Cons c cs)
  show ?case
  proof (cases "cs = []")
    case True
    obtain p where "pct (cur + length c) t = Inr p"
      using pct_total_pos [OF Cons.prems(2)] by blast
    with True show ?thesis by simp
  next
    case False
    with Cons.IH [OF False Cons.prems(2), of "cur + length c"] show ?thesis
      by (simp add: add.assoc)
  qed
qed

text \<open>The streamed branch, when both files open.\<close>

lemma stream_copy_effect:
  assumes "stat (fs st) src = Inr s" and "\<not> read_fails (fs st) src"
    and "\<not> write_fails (fs st) dst" and "0 < totalsize"
  defines "cs \<equiv> read_chunks CHUNK_SIZE (data s)"
  defines "m \<equiv> written (cancel_at st) (polls st) cs"
  shows "\<exists>st'. stream_copy src dst totalsize st =
           ((if stopped (cancel_at st) (polls st) cs then Cancelled else Updated,
             if stopped (cancel_at st) (polls st) cs then ''Cancelled: '' @ src
             else ''Updated: '' @ src), st')
         \<and> progress_queue st' = progress_queue st @
              chunk_events (basename src) totalsize (current_size st) (take m cs)
         \<and> current_size st' = current_size st + length (concat (take m cs))
         \<and> polls st' = polls st + m + 1
         \<and> cancel_at st' = cancel_at st
         \<and> only_changes dst (fs st) (fs st')
         \<and> map_option data (files (fs st') dst) = Some (concat (take m cs))"
proof -
  obtain w1 where w1: "open_wb (fs st) dst = Inr w1"
    using open_wb_ok [OF assms(3)] by blast
  have rb: "open_rb (fs st) src = Inr (data s)"
    using assms(1,2) by (rule stat_open_rb)
  note loop = copy_loop_effect [OF assms(4), of src dst "data s" "st\<lparr>fs := w1\<rparr>"]
  have oc: "only_changes dst (fs st) (write_all w1 dst (take m cs))"
    using only_changes_trans [OF open_wb_changes [OF w1] write_all_changes] .
  have dat: "files (write_all w1 dst (take m cs)) dst
             = Some \<lparr>data = concat (take m cs), mtime = clock w1\<rparr>"
    using write_all_data [of w1 dst "\<lparr>data = [], mtime = clock w1\<rparr>" "take m cs"]
      open_wb_file [OF w1] by simp
  have dat': "map_option data (files (write_all w1 dst (take m cs)) dst) = Some (concat (take m cs))"
    using dat by simp
  have dat2: "map_option data (files (try_copystat (write_all w1 dst (take m cs)) src dst) dst)
              = Some (concat (take m cs))"
    using dat by (simp add: try_copystat_data)
  have oc2: "only_changes dst (fs st) (try_copystat (write_all w1 dst (take m cs)) src dst)"
    using only_changes_trans [OF oc try_copystat_changes] .
  show ?thesis
  proof (cases "stopped (cancel_at st) (polls st) cs")
    case True
    then show ?thesis
      using w1 rb oc dat'
      by (simp add: stream_copy_def loop Let_def cs_def [symmetric] m_def [symmetric])
  next
    case False
    then show ?thesis
      using w1 rb oc2 dat2
      by (simp add: stream_copy_def loop Let_def cs_def [symmetric] m_def [symmetric])
  qed
qed

lemma CHUNK_SIZE_pos [simp]: "0 < CHUNK_SIZE"
  by (simp add: CHUNK_SIZE_def)

lemma read_chunks_lengths:
  "0 < n \<Longrightarrow> c \<in> set (read_chunks n d) \<Longrightarrow> 0 < length c \<and> length c \<le> n"
proof (induction n d rule: read_chunks.induct)
  case (1 n d)
  show ?case
  proof (cases "take n d = []")
    case True
    with "1.prems" show ?thesis by (simp add: read_chunks_Nil)
  next
    case False
    with "1.prems" "1.IH" [OF refl False "1.prems"(1)] show ?thesis
      by (auto simp: read_chunks_Cons)
  qed
qed

lemma read_chunks_butlast:
  "0 < n \<Longrightarrow> c \<in> set (butlast (read_chunks n d)) \<Longrightarrow> length c = n"
proof (induction n d rule: read_chunks.induct)
  case (1 n d)
  show ?case
  proof (cases "take n d = []")
    case True
    with "1.prems" show ?thesis by (simp add: read_chunks_Nil)
  next
    case False
    show ?thesis
    proof (cases "take n (drop n d) = []")
      case True
      with False "1.prems" show ?thesis
        by (simp add: read_chunks_Cons read_chunks_Nil)
    next
      case more: False
      then have "n \<le> length d" by (cases "n \<le> length d") auto
      with False more "1.prems" "1.IH" [OF refl False "1.prems"(1)] show ?thesis
        by (auto simp: read_chunks_Cons [OF False] read_chunks_Cons [OF more])
    qed
  qed
qed

lemma read_chunks_count: "0 < n \<Longrightarrow> length (read_chunks n d) = (length d + n - 1) div n"
proof (induction n d rule: read_chunks.induct)
  case (1 n d)
  show ?case
  proof (cases "take n d = []")
    case True
    with "1.prems" have "d = []" by (cases d) auto
    with "1.prems" show ?thesis by (simp add: read_chunks_Nil)
  next
    case False
    have IH: "length (read_chunks n (drop n d)) = (length d - n + n - 1) div n"
      using "1.IH" [OF refl False "1.prems"] by simp
    show ?thesis
    proof (cases "n \<le> length d")
      case True
      then have "(length d + n - 1) div n = Suc ((length d - n + n - 1) div n)"
        using "1.prems" le_div_geq [of n "length d + n - 1"] by simp
      with IH False show ?thesis by (simp add: read_chunks_Cons)
    next
      case short: False
      then have "drop n d = []" by simp
      moreover have "d \<noteq> []" using False by auto
      moreover have "n \<le> length d + n - 1" using \<open>d \<noteq> []\<close> by (cases d) simp_all
      then have "(length d + n - 1) div n = Suc 0"
        using short "1.prems" le_div_geq [of n "length d + n - 1"] by simp
      ultimately show ?thesis
        using False by (simp add: read_chunks_Cons read_chunks_Nil)
    qed
  qed
qed

section \<open>Evaluation on examples\<close>

lemma read_chunks_short: "d \<noteq> [] \<Longrightarrow> length d \<le> n \<Longrightarrow> read_chunks n d = [d]"
  by (simp add: read_chunks_Cons read_chunks_Nil)

lemma read_chunks_replicate:
  "0 < n \<Longrightarrow> read_chunks n (replicate (k * n) x) = replicate k (replicate n x)"
proof (induction k)
  case 0
  then show ?case by (simp add: read_chunks_Nil)
next
  case (Suc k)
  then show ?case by (simp add: read_chunks_Cons min_def)
qed

lemma read_chunks_replicate_Suc:
  "0 < n \<Longrightarrow> read_chunks n (replicate (Suc n) x) = [replicate n x, [x]]"
proof -
  assume n: "0 < n"
  have r: "replicate (Suc n) x = replicate n x @ [x]"
    by (simp add: replicate_append_same)
  have "take n (replicate (Suc n) x) = replicate n x" "drop n (replicate (Suc n) x) = [x]"
    unfolding r by simp_all
  then show ?thesis
    using n by (simp add: read_chunks_Cons read_chunks_Nil del: replicate_Suc)
qed

lemma pct_evals:
  "pct 5 5 = Inr 100"
  "pct 3 6 = Inr 50" "pct 5 8 = Inr 62" "pct 0 0 = Inl ZeroDivisionError" "pct 0 1 = Inr 0"
  by code_simp+

lemma Suc2: "Suc (Suc 0) = 2"
  by simp

lemmas session_defs =
  run_def sync_folder_def sync_file_def enumerate_tasks_def folder_totalsize_def file_totalsize_def
  finish_def start_def is_set_def poll_def put_def joinpath_def basename_def Let_def

lemmas local_defs =
  LocalTransfer_run_def LocalTransfer_process_file_def LocalTransfer_needs_update_def
  LocalTransfer_copy_file_with_progress_def stat_checks_def hash_check_def skip_pct_def
  LARGE_FILE_THRESHOLD_def

lemmas transfer_defs =
  transfer_run_def transfer_process_file_def transfer_needs_update_def
  transfer_copy_file_with_progress_def stat_checks_def hash_check_def skip_pct_def

lemmas fs_defs =
  world_of_def path_exists_def stat_def st_size_def st_mtime_def open_rb_def open_wb_def
  write_chunk_def copystat_def copyfile_def copy2_def try_copystat_def

lemma cancel_at_check [simp]:
  "cancel_at (check_and_upload_file md5 remote_files total_files local_path st) = cancel_at st"
  by (simp add: check_and_upload_file_def Let_def poll_def put_def
      split: sum.splits option.splits prod.splits)

lemma cancel_at_upload_all [simp]:
  "cancel_at (upload_all md5 remote_files total_files futures st) = cancel_at st"
  by (induction futures arbitrary: st) simp_all

lemmas gdrive_defs =
  GDriveTransfer_run_def check_and_upload_file_def Upload_def get_file_hash_def file_hash_def
  failed_to_process_def gstart_def md5_update_all_read_chunks

lemma remote_files_of_Some:
  "remote_files_of file_list m0 t = Some (i, sz, m) \<Longrightarrow>
   (\<exists>g \<in> set file_list. title g = t \<and> gid g = i \<and> fileSize g = sz \<and> md5Checksum g = Some m)
   \<or> m0 t = Some (i, sz, m)"
proof (induction file_list arbitrary: m0)
  case Nil
  then show ?case by simp
next
  case (Cons f file_list)
  from Cons.IH [OF Cons.prems [simplified]] show ?case
    by (auto split: option.splits if_splits)
qed

lemmas hash_defs = file_hash_def md5_update_all_read_chunks

lemma pct_0_Suc_0: "pct 0 (Suc 0) = Inr 0"
  using pct_evals by simp

section \<open>Lemmas on one task\<close>

lemma queue_current_poll [simp]: "queue_current t (poll st) = queue_current t st"
  by (simp add: queue_current_def)

lemma is_set_None [simp]: "cancel_at st = None \<Longrightarrow> \<not> is_set st"
  by (simp add: is_set_def)

lemma queue_current_put:
  "pct (current_size st) t = Inr p \<Longrightarrow> queue_current t (put (Downloading p nm) st)"
  by (simp add: queue_current_def)

lemma stream_copy_props:
  assumes t: "0 < t" and s: "stat (fs st) src = Inr s"
    and run: "stream_copy src dst t st = (r, st')"
  shows "cancel_at st' = cancel_at st \<and> only_changes dst (fs st) (fs st')
         \<and> (cancel_at st = None \<longrightarrow>
              current_size st' = current_size st + (if fst r = Updated then st_size s else 0))
         \<and> (queue_current t st \<longrightarrow> queue_current t st')"
proof (cases "read_fails (fs st) src \<or> write_fails (fs st) dst")
  case True
  have "open_rb (fs st) src = Inr (data s) \<or> (\<exists>e. open_rb (fs st) src = Inl e)"
    by (cases "open_rb (fs st) src") (use s in \<open>auto simp: stat_def open_rb_def split: option.splits if_splits\<close>)
  with True run have "st' = st \<and> fst r = Error"
    by (auto simp: stream_copy_def open_rb_def open_wb_def split: sum.splits option.splits if_splits)
  then show ?thesis by simp
next
  case False
  define cs where "cs = read_chunks CHUNK_SIZE (data s)"
  define m where "m = written (cancel_at st) (polls st) cs"
  from False stream_copy_effect [OF s _ _ t, of dst] run
  have eff: "fst r = (if stopped (cancel_at st) (polls st) cs then Cancelled else Updated)"
    "progress_queue st' = progress_queue st @
        chunk_events (basename src) t (current_size st) (take m cs)"
    "current_size st' = current_size st + length (concat (take m cs))"
    "cancel_at st' = cancel_at st" "only_changes dst (fs st) (fs st')"
    by (auto simp: cs_def m_def)
  have none: "cancel_at st = None \<Longrightarrow> fst r = Updated \<and> length (concat (take m cs)) = st_size s"
    using eff(1) by (simp add: m_def cs_def written_def stopped_def concat_read_chunks st_size_def)
  have q: "queue_current t st'" if "queue_current t st"
  proof (cases "take m cs = []")
    case True
    with that eff(2,3) show ?thesis by (simp add: queue_current_def)
  next
    case False
    from chunk_events_last [OF False t, of "basename src" "current_size st"] False
    show ?thesis
      by (auto simp: queue_current_def eff(2,3))
  qed
  show ?thesis
    using eff(3,4,5) none q by simp
qed

lemma source_size_stat: "stat w src = Inr s \<Longrightarrow> source_size w src = st_size s"
  by (simp add: source_size_def)

lemma transfer_copy_props:
  assumes t: "0 < t" and run: "transfer_copy_file_with_progress src dst t st = (r, st')"
  shows "cancel_at st' = cancel_at st \<and> only_changes dst (fs st) (fs st')
         \<and> (cancel_at st = None \<longrightarrow>
              current_size st' =
                current_size st + (if fst r = Updated then source_size (fs st) src else 0))
         \<and> (queue_current t st \<longrightarrow> queue_current t st')"
proof (cases "is_set st")
  case True
  with run have "st' = poll st" "fst r = Cancelled"
    by (auto simp: transfer_copy_file_with_progress_def)
  then show ?thesis by simp
next
  case False
  show ?thesis
  proof (cases "stat (fs st) src")
    case (Inl e)
    with False run have "st' = poll st" "fst r = Error"
      by (auto simp: transfer_copy_file_with_progress_def Let_def)
    then show ?thesis by simp
  next
    case (Inr s)
    with False run have "stream_copy src dst t (poll st) = (r, st')"
      by (simp add: transfer_copy_file_with_progress_def Let_def)
    from stream_copy_props [OF t _ this, of s] Inr show ?thesis
      by (simp add: source_size_stat)
  qed
qed

lemma LocalTransfer_copy_props:
  assumes t: "0 < t" and run: "LocalTransfer_copy_file_with_progress src dst t st = (r, st')"
  shows "cancel_at st' = cancel_at st \<and> only_changes dst (fs st) (fs st')
         \<and> (cancel_at st = None \<longrightarrow>
              current_size st' =
                current_size st + (if fst r = Updated then source_size (fs st) src else 0))
         \<and> (queue_current t st \<longrightarrow> queue_current t st')"
proof (cases "is_set st")
  case True
  with run have "st' = poll st" "fst r = Cancelled"
    by (auto simp: LocalTransfer_copy_file_with_progress_def)
  then show ?thesis by simp
next
  case False
  show ?thesis
  proof (cases "stat (fs st) src")
    case (Inl e)
    with False run have "st' = poll st" "fst r = Error"
      by (auto simp: LocalTransfer_copy_file_with_progress_def Let_def)
    then show ?thesis by simp
  next
    case (Inr s)
    show ?thesis
    proof (cases "LARGE_FILE_THRESHOLD \<le> st_size s")
      case True
      with False Inr run have "stream_copy src dst t (poll st) = (r, st')"
        by (simp add: LocalTransfer_copy_file_with_progress_def Let_def)
      from stream_copy_props [OF t _ this, of s] Inr show ?thesis
        by (simp add: source_size_stat)
    next
      case small: False
      obtain e w1 where c2: "copy2 (fs st) src dst = (e, w1)"
        by (cases "copy2 (fs st) src dst") auto
      note oc = copy2_changes [OF c2]
      show ?thesis
      proof (cases e)
        case (Some err)
        with False Inr small c2 run have "st' = poll st\<lparr>fs := w1\<rparr>" "fst r = Error"
          by (auto simp: LocalTransfer_copy_file_with_progress_def Let_def)
        with oc show ?thesis by (simp add: queue_current_def)
      next
        case None
        obtain p where p: "pct (current_size st + st_size s) t = Inr p"
          using pct_total_pos [OF t] by blast
        with None False Inr small c2 run
        have "st' = put (Downloading p (basename src))
                      (poll st\<lparr>fs := w1, current_size := current_size st + st_size s\<rparr>)"
          "fst r = Updated"
          by (auto simp: LocalTransfer_copy_file_with_progress_def Let_def)
        with oc p Inr show ?thesis
          by (simp add: queue_current_def source_size_stat)
      qed
    qed
  qed
qed

lemma skip_props:
  assumes t: "0 < t"
  shows "\<exists>p. skip_pct (current_size st) t = Inr p
             \<and> queue_current t (put (Downloading p nm) st)"
proof -
  obtain p where "pct (current_size st) t = Inr p"
    using pct_total_pos [OF t] by blast
  with t show ?thesis
    by (simp add: skip_pct_def queue_current_def)
qed

lemma LocalTransfer_task_effect: "task_effect (LocalTransfer_process_file digest)"
  unfolding task_effect_def
proof (intro allI impI)
  fix src dst t st
  assume t: "0 < (t::nat)"
  obtain r st' where run: "LocalTransfer_process_file digest src dst t st = (r, st')"
    by (cases "LocalTransfer_process_file digest src dst t st") auto
  have "cancel_at st' = cancel_at st \<and> only_changes dst (fs st) (fs st')
         \<and> (cancel_at st = None \<longrightarrow>
              current_size st' =
                current_size st + (if fst r = Updated then source_size (fs st) src else 0))
         \<and> (queue_current t st \<longrightarrow> queue_current t st')"
  proof (cases "is_set st")
    case True
    with run have "st' = poll st" "fst r = Cancelled"
      by (auto simp: LocalTransfer_process_file_def)
    then show ?thesis by simp
  next
    case False
    show ?thesis
    proof (cases "LocalTransfer_needs_update digest (fs st) src dst")
      case True
      with False run
      have "LocalTransfer_copy_file_with_progress src dst t (poll st) = (r, st')"
        by (simp add: LocalTransfer_process_file_def Let_def)
      from LocalTransfer_copy_props [OF t this] show ?thesis by simp
    next
      case skip: False
      obtain p where p: "skip_pct (current_size st) t = Inr p"
        "queue_current t (put (Downloading p (''(Skipped) '' @ basename src)) (poll st))"
        using skip_props [OF t, of "poll st"] by auto
      with False skip run
      have "st' = put (Downloading p (''(Skipped) '' @ basename src)) (poll st)"
        "fst r = Skipped"
        by (auto simp: LocalTransfer_process_file_def Let_def)
      with p show ?thesis by simp
    qed
  qed
  with run show "case LocalTransfer_process_file digest src dst t st of
           (r, st') \<Rightarrow>
             cancel_at st' = cancel_at st
             \<and> only_changes dst (fs st) (fs st')
             \<and> (cancel_at st = None \<longrightarrow>
                  current_size st' =
                    current_size st + (if fst r = Updated then source_size (fs st) src else 0))
             \<and> (queue_current t st \<longrightarrow> queue_current t st')"
    by simp
qed

lemma transfer_task_effect: "task_effect (transfer_process_file digest)"
  unfolding task_effect_def
proof (intro allI impI)
  fix src dst t st
  assume t: "0 < (t::nat)"
  obtain r st' where run: "transfer_process_file digest src dst t st = (r, st')"
    by (cases "transfer_process_file digest src dst t st") auto
  have "cancel_at st' = cancel_at st \<and> only_changes dst (fs st) (fs st')
         \<and> (cancel_at st = None \<longrightarrow>
              current_size st' =
                current_size st + (if fst r = Updated then source_size (fs st) src else 0))
         \<and> (queue_current t st \<longrightarrow> queue_current t st')"
  proof (cases "is_set st")
    case True
    with run have "st' = poll st" "fst r = Cancelled"
      by (auto simp: transfer_process_file_def)
    then show ?thesis by simp
  next
    case False
    show ?thesis
    proof (cases "transfer_needs_update digest (fs st) src dst")
      case True
      with False run
      have "transfer_copy_file_with_progress src dst t (poll st) = (r, st')"
        by (simp add: transfer_process_file_def Let_def)
      from transfer_copy_props [OF t this] show ?thesis by simp
    next
      case skip: False
      obtain p where p: "skip_pct (current_size st) t = Inr p"
        "queue_current t (put (Downloading p (basename src)) (poll st))"
        using skip_props [OF t, of "poll st"] by auto
      with False skip run
      have "st' = put (Downloading p (basename src)) (poll st)" "fst r = Skipped"
        by (auto simp: transfer_process_file_def Let_def)
      with p show ?thesis by simp
    qed
  qed
  with run show "case transfer_process_file digest src dst t st of
           (r, st') \<Rightarrow>
             cancel_at st' = cancel_at st
             \<and> only_changes dst (fs st) (fs st')
             \<and> (cancel_at st = None \<longrightarrow>
                  current_size st' =
                    current_size st + (if fst r = Updated then source_size (fs st) src else 0))
             \<and> (queue_current t st \<longrightarrow> queue_current t st')"
    by simp
qed

section \<open>Lemmas on the pool\<close>

lemma task_effectD:
  assumes "task_effect pf" and "0 < t" and "pf src dst t st = (r, st')"
  shows "cancel_at st' = cancel_at st" "only_changes dst (fs st) (fs st')"
    "cancel_at st = None \<Longrightarrow>
       current_size st' = current_size st + (if fst r = Updated then source_size (fs st) src else 0)"
    "queue_current t st \<Longrightarrow> queue_current t st'"
proof -
  have "case pf src dst t st of
           (r, st') \<Rightarrow>
             cancel_at st' = cancel_at st
             \<and> only_changes dst (fs st) (fs st')
             \<and> (cancel_at st = None \<longrightarrow>
                  current_size st' =
                    current_size st + (if fst r = Updated then source_size (fs st) src else 0))
             \<and> (queue_current t st \<longrightarrow> queue_current t st')"
    using assms(1) [unfolded task_effect_def, rule_format, OF assms(2)] .
  then have all: "cancel_at st' = cancel_at st
             \<and> only_changes dst (fs st) (fs st')
             \<and> (cancel_at st = None \<longrightarrow>
                  current_size st' =
                    current_size st + (if fst r = Updated then source_size (fs st) src else 0))
             \<and> (queue_current t st \<longrightarrow> queue_current t st')"
    unfolding assms(3) by simp
  from all show "cancel_at st' = cancel_at st" by simp
  from all show "only_changes dst (fs st) (fs st')" by simp
  from all show "cancel_at st = None \<Longrightarrow>
       current_size st' = current_size st + (if fst r = Updated then source_size (fs st) src else 0)"
    by simp
  from all show "queue_current t st \<Longrightarrow> queue_current t st'" by simp
qed

lemma folder_totalsize_pos: "tasks \<noteq> [] \<Longrightarrow> 0 < folder_totalsize w tasks"
  by (simp add: folder_totalsize_def Let_def)

lemma collect_length_le: "length (fst (collect_futures pf t tasks st)) \<le> length tasks"
proof (induction tasks arbitrary: st)
  case Nil
  show ?case by simp
next
  case (Cons a tasks)
  obtain s d where a: "a = (s, d)" by (cases a)
  show ?case
    using Cons.IH [of "poll (snd (pf s d t st))"]
    by (simp add: a case_prod_beta Let_def)
qed

lemma collect_nonempty: "tasks \<noteq> [] \<Longrightarrow> fst (collect_futures pf t tasks st) \<noteq> []"
proof (cases tasks)
  case Nil
  then show "tasks \<noteq> [] \<Longrightarrow> ?thesis" by simp
next
  case (Cons a rest)
  obtain s d where a: "a = (s, d)" by (cases a)
  show ?thesis
    by (simp add: Cons a case_prod_beta Let_def)
qed

lemma collect_stops:
  "is_set (snd (pf s d t st)) \<Longrightarrow>
   fst (collect_futures pf t ((s, d) # futures) st) = [fst (pf s d t st)]"
  by (simp add: case_prod_beta)

lemma collect_length:
  assumes "task_effect pf" and "0 < t" and "cancel_at st = None"
  shows "length (fst (collect_futures pf t tasks st)) = length tasks"
  using assms(3)
proof (induction tasks arbitrary: st)
  case Nil
  show ?case by simp
next
  case (Cons a tasks)
  obtain s d where a: "a = (s, d)" by (cases a)
  obtain r st1 where run: "pf s d t st = (r, st1)" by (cases "pf s d t st")
  have c: "cancel_at st1 = None"
    using task_effectD(1) [OF assms(1,2) run] Cons.prems by simp
  then have "cancel_at (poll st1) = None" by simp
  from Cons.IH [OF this] c show ?case
    by (simp add: a run case_prod_beta)
qed

lemma updated_bytes_frame:
  "only_changes d w w1 \<Longrightarrow> d \<notin> fst ` set tasks \<Longrightarrow>
   updated_bytes w1 tasks results = updated_bytes w tasks results"
proof (induction w tasks results rule: updated_bytes.induct)
  case (1 w s d' tasks r results)
  then have "source_size w1 s = source_size w s"
    by (auto simp: source_size_def only_changes_stat)
  with 1 show ?case by auto
qed simp_all

lemma collect_counter:
  assumes "task_effect pf" and "0 < t"
  shows "cancel_at st = None \<Longrightarrow> fst ` set tasks \<inter> snd ` set tasks = {} \<Longrightarrow>
         collect_futures pf t tasks st = (results, st') \<Longrightarrow>
         current_size st' = current_size st + updated_bytes (fs st) tasks results
         \<and> (queue_current t st \<longrightarrow> queue_current t st')"
proof (induction tasks arbitrary: st results)
  case Nil
  then show ?case by simp
next
  case (Cons a tasks)
  obtain s d where a: "a = (s, d)" by (cases a)
  obtain r st1 where run: "pf s d t st = (r, st1)" by (cases "pf s d t st")
  note eff = task_effectD [OF assms run]
  have c: "cancel_at st1 = None" using eff(1) Cons.prems(1) by simp
  obtain rs where rest: "collect_futures pf t tasks (poll st1) = (rs, st')"
    and res: "results = r # rs"
    using Cons.prems(3) c
    by (auto simp: a run Let_def split: prod.splits)
  have disj: "fst ` set tasks \<inter> snd ` set tasks = {}" "d \<notin> fst ` set tasks"
    using Cons.prems(2) by (auto simp: a)
  have IH: "current_size st' = current_size (poll st1) + updated_bytes (fs (poll st1)) tasks rs
            \<and> (queue_current t (poll st1) \<longrightarrow> queue_current t st')"
    using Cons.IH [OF _ disj(1) rest] c by simp
  have "updated_bytes (fs st1) tasks rs = updated_bytes (fs st) tasks rs"
    using updated_bytes_frame [OF eff(2) disj(2)] .
  with IH eff(3) [OF Cons.prems(1)] eff(4) show ?case
    by (simp add: a res)
qed

lemma updated_bytes_all:
  "length results = length tasks \<Longrightarrow> \<forall>r \<in> set results. fst r = Updated \<Longrightarrow>
   updated_bytes w tasks results = sum_sizes w tasks"
proof (induction tasks arbitrary: results)
  case Nil
  then show ?case by simp
next
  case (Cons a tasks)
  obtain s d where a: "a = (s, d)" by (cases a)
  from Cons.prems(1) obtain r rs where rs: "results = r # rs"
    by (cases results) auto
  with Cons show ?case
    by (simp add: a source_size_def)
qed

lemma round_double_evals: "round_double 1 = 1" "round_double 100 = 100"
  by code_simp+

lemma pct_full: "0 < c \<Longrightarrow> pct c c = Inr 100"
  by (simp add: pct_def true_div_def round_double_evals)

section \<open>Change detection: the four checks\<close>

text \<open>
  Claim C1. \<open>needs_update\<close> decides by four checks in order, stopping at the first
  that says yes: a missing destination gives true without the source being looked at;
  otherwise differing sizes give true without any file being read; otherwise a source
  whose modification time, truncated to whole seconds, is later than the destination's
  gives true; otherwise the answer is whether the streamed digests of the two contents
  differ. This holds for the batch script and for both GUI classes.
\<close>

theorem needs_update_four_checks:
  "(\<not> path_exists w dst \<longrightarrow>
      needs_update digest w src dst = Inr True \<and> transfer_needs_update digest w src dst
      \<and> LocalTransfer_needs_update digest w src dst)
   \<and> (path_exists w dst \<and> stat w src = Inr s \<and> stat w dst = Inr d \<and> st_size s \<noteq> st_size d \<longrightarrow>
      needs_update digest w src dst = Inr True \<and> transfer_needs_update digest w src dst
      \<and> LocalTransfer_needs_update digest w src dst)
   \<and> (path_exists w dst \<and> stat w src = Inr s \<and> stat w dst = Inr d \<and> st_size s = st_size d
       \<and> py_int (st_mtime s) > py_int (st_mtime d) \<longrightarrow>
      needs_update digest w src dst = Inr True \<and> transfer_needs_update digest w src dst
      \<and> LocalTransfer_needs_update digest w src dst)
   \<and> (path_exists w dst \<and> stat w src = Inr s \<and> stat w dst = Inr d \<and> st_size s = st_size d
       \<and> \<not> py_int (st_mtime s) > py_int (st_mtime d)
       \<and> \<not> read_fails w src \<and> \<not> read_fails w dst \<longrightarrow>
      needs_update digest w src dst = Inr (digest (data s) \<noteq> digest (data d))
      \<and> transfer_needs_update digest w src dst = (digest (data s) \<noteq> digest (data d))
      \<and> LocalTransfer_needs_update digest w src dst = (digest (data s) \<noteq> digest (data d)))"
  by (simp add: needs_update_def transfer_needs_update_def LocalTransfer_needs_update_def
      stat_checks_def hash_check_def file_hash_stat)

theorem needs_update_four_checks_witness:
  "(\<not> path_exists (world_of [(''src'', ''abc'', 5)]) ''dst''
    \<and> needs_update (\<lambda>bs. bs) (world_of [(''src'', ''abc'', 5)]) ''src'' ''dst'' = Inr True
    \<and> LocalTransfer_needs_update (\<lambda>bs. bs) (world_of [(''src'', ''abc'', 5)]) ''src'' ''dst'')
   \<and> (needs_update (\<lambda>bs. bs) (world_of [(''src'', ''abc'', 5), (''dst'', ''ab'', 5)]) ''src'' ''dst'' = Inr True
    \<and> LocalTransfer_needs_update (\<lambda>bs. bs) (world_of [(''src'', ''abc'', 5), (''dst'', ''ab'', 5)]) ''src'' ''dst'')
   \<and> (needs_update (\<lambda>bs. bs) (world_of [(''src'', ''abc'', 7), (''dst'', ''abc'', 5)]) ''src'' ''dst'' = Inr True
    \<and> LocalTransfer_needs_update (\<lambda>bs. bs) (world_of [(''src'', ''abc'', 7), (''dst'', ''abc'', 5)]) ''src'' ''dst'')
   \<and> (needs_update (\<lambda>bs. bs) (world_of [(''src'', ''abc'', 5), (''dst'', ''abc'', 5)]) ''src'' ''dst'' = Inr False
    \<and> \<not> LocalTransfer_needs_update (\<lambda>bs. bs) (world_of [(''src'', ''abc'', 5), (''dst'', ''abc'', 5)]) ''src'' ''dst'')
   \<and> (needs_update (\<lambda>bs. bs) (world_of [(''src'', ''abc'', 5), (''dst'', ''abd'', 5)]) ''src'' ''dst'' = Inr True
    \<and> LocalTransfer_needs_update (\<lambda>bs. bs) (world_of [(''src'', ''abc'', 5), (''dst'', ''abd'', 5)]) ''src'' ''dst'')"
  using needs_update_four_checks [where w = "world_of [(''src'', ''abc'', 5)]" and dst = "''dst''" and src = "''src''"
       and digest = "\<lambda>bs. bs" and s = "\<lparr>data = ''abc'', mtime = 5\<rparr>" and d = "\<lparr>data = '''', mtime = 5\<rparr>"]
    needs_update_four_checks [where w = "world_of [(''src'', ''abc'', 5), (''dst'', ''ab'', 5)]" and dst = "''dst''" and src = "''src''"
       and digest = "\<lambda>bs. bs" and s = "\<lparr>data = ''abc'', mtime = 5\<rparr>" and d = "\<lparr>data = ''ab'', mtime = 5\<rparr>"]
    needs_update_four_checks [where w = "world_of [(''src'', ''abc'', 7), (''dst'', ''abc'', 5)]" and dst = "''dst''" and src = "''src''"
       and digest = "\<lambda>bs. bs" and s = "\<lparr>data = ''abc'', mtime = 7\<rparr>" and d = "\<lparr>data = ''abc'', mtime = 5\<rparr>"]
    needs_update_four_checks [where w = "world_of [(''src'', ''abc'', 5), (''dst'', ''abc'', 5)]" and dst = "''dst''" and src = "''src''"
       and digest = "\<lambda>bs. bs" and s = "\<lparr>data = ''abc'', mtime = 5\<rparr>" and d = "\<lparr>data = ''abc'', mtime = 5\<rparr>"]
    needs_update_four_checks [where w = "world_of [(''src'', ''abc'', 5), (''dst'', ''abd'', 5)]" and dst = "''dst''" and src = "''src''"
       and digest = "\<lambda>bs. bs" and s = "\<lparr>data = ''abc'', mtime = 5\<rparr>" and d = "\<lparr>data = ''abd'', mtime = 5\<rparr>"]
  by (simp add: world_of_def path_exists_def stat_def st_size_def st_mtime_def)

section \<open>A destination newer than the source\<close>

text \<open>
  Claim C6, as stated: a destination whose modification time is newer than the source's
  is never copied again, even when the contents differ. It is copied again: with equal
  sizes and the destination one second newer, the third check says no and the fourth
  compares the digests, which differ.
\<close>

theorem newer_destination_recopied_counterexample:
  "py_int (st_mtime \<lparr>data = ''a'', mtime = 1\<rparr>) < py_int (st_mtime \<lparr>data = ''b'', mtime = 2\<rparr>)
   \<and> file_hash (\<lambda>bs. bs) (world_of [(''src'', ''a'', 1), (''dst'', ''b'', 2)]) ''src''
       \<noteq> file_hash (\<lambda>bs. bs) (world_of [(''src'', ''a'', 1), (''dst'', ''b'', 2)]) ''dst''
   \<and> needs_update (\<lambda>bs. bs) (world_of [(''src'', ''a'', 1), (''dst'', ''b'', 2)]) ''src'' ''dst'' = Inr True
   \<and> transfer_needs_update (\<lambda>bs. bs) (world_of [(''src'', ''a'', 1), (''dst'', ''b'', 2)]) ''src'' ''dst''
   \<and> LocalTransfer_needs_update (\<lambda>bs. bs) (world_of [(''src'', ''a'', 1), (''dst'', ''b'', 2)]) ''src'' ''dst''"
  by (simp add: needs_update_def transfer_needs_update_def LocalTransfer_needs_update_def
      stat_checks_def hash_check_def file_hash_eq world_of_def path_exists_def stat_def
      st_size_def st_mtime_def)

text \<open>
  Claim C6, amended. When the destination's modification time (in whole seconds) is not
  older than the source's, the time check does not ask for a copy, and the file is copied
  again exactly when the sizes differ or the content digests differ.
\<close>

theorem destination_not_older:
  assumes "path_exists w dst" and "stat w src = Inr s" and "stat w dst = Inr d"
    and "py_int (st_mtime s) \<le> py_int (st_mtime d)"
    and "\<not> read_fails w src" and "\<not> read_fails w dst"
  shows "needs_update digest w src dst = Inr (st_size s \<noteq> st_size d \<or> digest (data s) \<noteq> digest (data d))
    \<and> transfer_needs_update digest w src dst = (st_size s \<noteq> st_size d \<or> digest (data s) \<noteq> digest (data d))
    \<and> LocalTransfer_needs_update digest w src dst = (st_size s \<noteq> st_size d \<or> digest (data s) \<noteq> digest (data d))"
  using assms
  by (simp add: needs_update_def transfer_needs_update_def LocalTransfer_needs_update_def
      stat_checks_def hash_check_def file_hash_stat)

theorem destination_not_older_witness:
  "LocalTransfer_needs_update (\<lambda>bs. bs) (world_of [(''src'', ''a'', 1), (''dst'', ''b'', 2)]) ''src'' ''dst''
   \<and> \<not> LocalTransfer_needs_update (\<lambda>bs. bs) (world_of [(''src'', ''a'', 1), (''dst'', ''a'', 2)]) ''src'' ''dst''"
  using destination_not_older [where w = "world_of [(''src'', ''a'', 1), (''dst'', ''b'', 2)]"
      and src = "''src''" and dst = "''dst''" and digest = "\<lambda>bs. bs"
      and s = "\<lparr>data = ''a'', mtime = 1\<rparr>" and d = "\<lparr>data = ''b'', mtime = 2\<rparr>"]
    destination_not_older [where w = "world_of [(''src'', ''a'', 1), (''dst'', ''a'', 2)]"
      and src = "''src''" and dst = "''dst''" and digest = "\<lambda>bs. bs"
      and s = "\<lparr>data = ''a'', mtime = 1\<rparr>" and d = "\<lparr>data = ''a'', mtime = 2\<rparr>"]
  by (simp add: world_of_def path_exists_def stat_def st_size_def st_mtime_def)

section \<open>Failing calls during change detection\<close>




section \<open>The terminal phase of a run\<close>




section \<open>The results of a cancelled run\<close>

text \<open>
  Claim C2, as stated: when cancellation is requested in the middle of a run of N tasks,
  the result collection still has N entries. Here two tasks are submitted and the stop
  event is set while the first is being copied: the collecting loop takes the first
  result, sees the event set and breaks. The collection has one entry; the second task is
  awaited by the pool and its result is dropped.
\<close>

theorem cancelled_run_drops_results_counterexample:
  "fst (sync_folder (LocalTransfer_process_file (\<lambda>bs. bs)) ''s'' ''d'' [''a'', ''b'']
         (start (world_of [(''s/a'', ''xyz'', 5), (''s/b'', ''uvw'', 5)]) (Some 2)))
     = [(Updated, ''Updated: s/a'')]
   \<and> length (enumerate_tasks ''s'' ''d'' [''a'', ''b'']) = 2
   \<and> files (fs (snd (sync_folder (LocalTransfer_process_file (\<lambda>bs. bs)) ''s'' ''d'' [''a'', ''b'']
         (start (world_of [(''s/a'', ''xyz'', 5), (''s/b'', ''uvw'', 5)]) (Some 2))))) ''d/s/b'' = None"
  by (simp add: session_defs local_defs fs_defs Suc2 pct_evals)

text \<open>
  Claim C2, amended. With N tasks submitted, the result collection of \<open>sync_folder\<close>
  has at most N entries and, for N > 0, at least one; the collecting loop stops at the
  first result after which it sees the stop event set, so that the tasks after it have no
  entry, although the pool still awaits them; the collection has exactly N entries when
  the stop event is never set. Entries are tagged \<open>Updated\<close>, \<open>Skipped\<close>,
  \<open>Cancelled\<close> or \<open>Error\<close>.
\<close>

theorem collected_results:
  "length (fst (sync_folder process_file src dst walk st)) \<le> length walk
   \<and> (walk \<noteq> [] \<longrightarrow> fst (sync_folder process_file src dst walk st) \<noteq> [])
   \<and> (is_set (snd (process_file s d totalsize st)) \<longrightarrow>
        fst (collect_futures process_file totalsize ((s, d) # futures) st)
        = [fst (process_file s d totalsize st)])
   \<and> ((process_file = LocalTransfer_process_file digest
         \<or> process_file = transfer_process_file digest) \<and> cancel_at st = None \<longrightarrow>
        length (fst (sync_folder process_file src dst walk st)) = length walk)"
proof (intro conjI impI)
  show "length (fst (sync_folder process_file src dst walk st)) \<le> length walk"
    using collect_length_le [of process_file _ "enumerate_tasks src dst walk"]
    by (simp add: sync_folder_def Let_def enumerate_tasks_def)
next
  assume "walk \<noteq> []"
  then show "fst (sync_folder process_file src dst walk st) \<noteq> []"
    using collect_nonempty [of "enumerate_tasks src dst walk" process_file]
    by (simp add: sync_folder_def Let_def enumerate_tasks_def)
next
  assume "is_set (snd (process_file s d totalsize st))"
  then show "fst (collect_futures process_file totalsize ((s, d) # futures) st)
        = [fst (process_file s d totalsize st)]"
    by (rule collect_stops)
next
  assume a: "(process_file = LocalTransfer_process_file digest
         \<or> process_file = transfer_process_file digest) \<and> cancel_at st = None"
  then have te: "task_effect process_file"
    using LocalTransfer_task_effect transfer_task_effect by blast
  show "length (fst (sync_folder process_file src dst walk st)) = length walk"
  proof (cases "walk = []")
    case True
    then show ?thesis by (simp add: sync_folder_def Let_def enumerate_tasks_def)
  next
    case False
    then have "0 < folder_totalsize (fs st) (enumerate_tasks src dst walk)"
      by (simp add: folder_totalsize_pos enumerate_tasks_def Let_def)
    from collect_length [OF te this, of "st\<lparr>current_size := 0\<rparr>" "enumerate_tasks src dst walk"] a
    show ?thesis
      by (simp add: sync_folder_def Let_def) (simp add: enumerate_tasks_def Let_def)
  qed
qed

theorem collected_results_witness:
  "length (fst (sync_folder (LocalTransfer_process_file (\<lambda>bs. bs)) ''s'' ''d'' [''a'', ''b'']
      (start (world_of [(''s/a'', ''xyz'', 5), (''s/b'', ''uvw'', 5)]) None))) = 2
   \<and> is_set (snd (LocalTransfer_process_file (\<lambda>bs. bs) ''s/a'' ''d/s/a'' 6
      (start (world_of [(''s/a'', ''xyz'', 5), (''s/b'', ''uvw'', 5)]) (Some 2))))
   \<and> fst (collect_futures (LocalTransfer_process_file (\<lambda>bs. bs)) 6
      [(''s/a'', ''d/s/a''), (''s/b'', ''d/s/b'')]
      (start (world_of [(''s/a'', ''xyz'', 5), (''s/b'', ''uvw'', 5)]) (Some 2)))
     = [(Updated, ''Updated: s/a'')]"
proof -
  let ?w = "world_of [(''s/a'', ''xyz'', 5), (''s/b'', ''uvw'', 5)]"
  have task: "LocalTransfer_process_file (\<lambda>bs. bs) ''s/a'' ''d/s/a'' 6 (start ?w (Some 2))
      = ((Updated, ''Updated: s/a''),
         \<lparr>fs = world_of [(''d/s/a'', ''xyz'', 5), (''s/a'', ''xyz'', 5), (''s/b'', ''uvw'', 5)],
          current_size = 3, progress_queue = [Downloading 50 ''a''], polls = 2,
          cancel_at = Some 2\<rparr>)"
    by (simp add: session_defs local_defs fs_defs pct_evals Suc2 fun_upd_twist)
  have full: "length (fst (sync_folder (LocalTransfer_process_file (\<lambda>bs. bs)) ''s'' ''d''
      [''a'', ''b''] (start ?w None))) = 2"
    using collected_results [where process_file = "LocalTransfer_process_file (\<lambda>bs. bs)"
        and digest = "\<lambda>bs. bs" and src = "''s''" and dst = "''d''" and walk = "[''a'', ''b'']"
        and st = "start ?w None", THEN conjunct2, THEN conjunct2, THEN conjunct2]
    by (simp add: start_def)
  have cut: "fst (collect_futures (LocalTransfer_process_file (\<lambda>bs. bs)) 6
      [(''s/a'', ''d/s/a''), (''s/b'', ''d/s/b'')] (start ?w (Some 2)))
     = [(Updated, ''Updated: s/a'')]"
    using collected_results [where process_file = "LocalTransfer_process_file (\<lambda>bs. bs)"
        and s = "''s/a''" and d = "''d/s/a''" and totalsize = 6
        and futures = "[(''s/b'', ''d/s/b'')]" and st = "start ?w (Some 2)",
        THEN conjunct2, THEN conjunct2, THEN conjunct1]
    by (simp add: task is_set_def)
  show ?thesis
    using full cut by (simp add: task is_set_def)
qed

section \<open>Streamed and single-shot copies\<close>






section \<open>The byte counter of a finished run\<close>





section \<open>Syncing an empty file twice\<close>

text \<open>
  Claim C8 says that an empty file is \<open>Updated\<close> by the first sync and \<open>Skipped\<close> by
  the second. With \<open>LocalTransfer\<close> and the empty file as the source itself, the first
  sync copies the file and then reports \<open>Error\<close> (division by zero); the second reports
  \<open>Skipped\<close>. \<open>transfer\<close> of uipytest.py, and \<open>LocalTransfer\<close> on a folder
  holding the file, report \<open>Updated\<close>.
\<close>

theorem empty_file_sync_twice:
  "fst (sync_file (LocalTransfer_process_file (\<lambda>bs. bs)) ''s/empty'' ''d''
        (start (world_of [(''s/empty'', [], 5)]) None))
     = [(Error, ''Error copying s/empty: division by zero'')]
   \<and> fs (snd (sync_file (LocalTransfer_process_file (\<lambda>bs. bs)) ''s/empty'' ''d''
        (start (world_of [(''s/empty'', [], 5)]) None)))
     = world_of [(''d/empty'', [], 5), (''s/empty'', [], 5)]
   \<and> fst (sync_file (LocalTransfer_process_file (\<lambda>bs. bs)) ''s/empty'' ''d''
        (start (world_of [(''d/empty'', [], 5), (''s/empty'', [], 5)]) None))
     = [(Skipped, ''Skipped: s/empty'')]
   \<and> fst (sync_file (transfer_process_file (\<lambda>bs. bs)) ''s/empty'' ''d''
        (start (world_of [(''s/empty'', [], 5)]) None))
     = [(Updated, ''Updated: s/empty'')]
   \<and> fst (sync_folder (LocalTransfer_process_file (\<lambda>bs. bs)) ''s'' ''d'' [''empty'']
        (start (world_of [(''s/empty'', [], 5)]) None))
     = [(Updated, ''Updated: s/empty'')]"
proof -
  have empty: "copy_loop src dst t [] st = (if is_set st then LoopCancelled else LoopBreak, poll st)"
    for src dst t st
    by (subst copy_loop.simps) simp
  show ?thesis
    by (simp add: session_defs local_defs transfer_defs fs_defs hash_defs pct_evals
        pct_0_Suc_0 stream_copy_def empty)
qed

section \<open>The percentage of a run over one empty file\<close>

text \<open>
  Claim C9 says that the total is forced to 1 whenever the files sum to zero, so that the
  percentage never divides by zero. \<open>sync_folder\<close> does that and the skipped branch
  guards the division, but \<open>sync_file\<close> leaves the total of an empty file at 0: the
  single-shot branch of \<open>LocalTransfer.copy_file_with_progress\<close> then divides by zero,
  no percentage is published and the run ends with an \<open>Error\<close> event.
\<close>

theorem empty_file_division_by_zero:
  "file_totalsize (world_of [(''s/empty'', [], 5)]) ''s/empty'' = 0
   \<and> pct 0 0 = Inl ZeroDivisionError
   \<and> progress_queue (LocalTransfer_run (\<lambda>bs. bs) RegularFile ''s/empty'' ''d''
        (start (world_of [(''s/empty'', [], 5)]) None))
       = [ErrorEvent ''Some files failed; check console'']
   \<and> folder_totalsize (world_of [(''s/empty'', [], 5)]) [(''s/empty'', ''d/s/empty'')] = 1
   \<and> skip_pct 0 0 = Inr 100"
  by (simp add: session_defs local_defs fs_defs pct_evals)

section \<open>Re-uploading a changed file to Drive\<close>




end
